theory Spec2Isabelle
  imports Complex_Main "HOL-Library.Word" "HOL-Library.Log_Nat"
begin

section \<open>co2mond: data model\<close>

text \<open>
  The daemon of \<^verbatim>\<open>co2mond/src/main.c\<close> polls a CO2 sensor, validates each
  frame, and forwards changed values to files or to an InfluxDB client. Everything the
  C code obtains from outside (device reads, system call results, the clock) is an input
  of the model; everything it does to the outside is an event of a trace.
\<close>

type_synonym u8 = "8 word"
type_synonym u16 = "16 word"

text \<open>\<^verbatim>\<open>#define CODE_TAMB 0x42\<close>, \<^verbatim>\<open>#define CODE_CNTR 0x50\<close>,
  \<^verbatim>\<open>#define PATH_MAX 4096\<close>, \<^verbatim>\<open>#define VALUE_MAX 20\<close>.\<close>

definition CODE_TAMB :: u8 where
  "CODE_TAMB = 0x42"

definition CODE_CNTR :: u8 where
  "CODE_CNTR = 0x50"

definition PATH_MAX :: nat where
  "PATH_MAX = 4096"

definition VALUE_MAX :: nat where
  "VALUE_MAX = 20"

text \<open>The globals set by the option parser and read by the loops. A \<^verbatim>\<open>char *\<close>
  that may be NULL is an option.\<close>

record config =
  daemonize :: bool
  print_unknown :: bool
  devicefile :: "string option"
  datadir :: "string option"
  influx_db :: "string option"

text \<open>\<^verbatim>\<open>uint16_t co2mon_data[256]\<close>, indexed by an \<^verbatim>\<open>unsigned char\<close>: every
  index is in range. A global of static storage, so it starts as all zeros.\<close>

type_synonym cache = "u8 \<Rightarrow> u16"

definition co2mon_data_init :: cache where
  "co2mon_data_init = (\<lambda>_. 0)"

datatype lock_type = F_WRLCK | F_UNLCK

datatype influx_field = INFLUX_F_FLT string string nat | INFLUX_F_INT string string

text \<open>What the program does to its environment, in order. The \<open>Call_\<close> events record
  that the named function of \<^verbatim>\<open>main.c\<close> was entered, with its arguments.\<close>

datatype event =
    Stdout string
  | Stderr string
  | Perror string
  | Sys_open string
  | Sys_lock lock_type
  | Sys_ftruncate
  | Sys_write string
  | Sys_close
  | Sys_sleep nat
  | Post_http string influx_field "64 word"
  | Dev_open "string option"
  | Dev_send_magic_table
  | Dev_read_data
  | Dev_close
  | Call_write_value string string
  | Call_write_temperature_influx string
  | Call_write_co2_influx string
  | Call_write_heartbeat

text \<open>The results of the system calls that one call of \<^verbatim>\<open>write_value\<close> makes:
  \<^verbatim>\<open>open\<close> (a descriptor or -1), \<^verbatim>\<open>fcntl\<close> for the lock, \<^verbatim>\<open>ftruncate\<close>,
  \<^verbatim>\<open>write\<close> (the number of bytes written or -1) and \<^verbatim>\<open>fcntl\<close> for the
  unlock.\<close>

record file_io =
  open_ret :: int
  lock_ret :: int
  ftruncate_ret :: int
  write_ret :: int
  unlock_ret :: int

text \<open>What the environment answers during one iteration of the reading loop:
  the return value and the buffer of \<^verbatim>\<open>co2mon_read_data\<close>, the clock, the return
  value of \<^verbatim>\<open>post_http\<close>, the system call results for the metric file and for the
  heartbeat file. \<^verbatim>\<open>write_temperature_influx\<close> and \<^verbatim>\<open>write_co2_influx\<close> are
  declared \<^verbatim>\<open>int\<close> and have no \<^verbatim>\<open>return\<close> statement: the value their caller
  tests is indeterminate, and is the input \<open>influx_fn_ret\<close>.\<close>

record env =
  read_ret :: int
  read_buf :: "u8 list"
  time_now :: int
  post_http_ret :: int
  influx_fn_ret :: int
  value_io :: file_io
  heartbeat_io :: file_io

section \<open>Formatting\<close>

text \<open>\<^verbatim>\<open>snprintf(buf, n, ...)\<close> stores at most \<open>n - 1\<close> characters.\<close>

definition snprintf :: "nat \<Rightarrow> string \<Rightarrow> string" where
  "snprintf n s = take (n - 1) s"

definition digit_char :: "nat \<Rightarrow> char" where
  "digit_char d = ''0123456789'' ! d"

fun dec_nat :: "nat \<Rightarrow> string" where
  "dec_nat n = (if n < 10 then [digit_char n] else dec_nat (n div 10) @ [digit_char (n mod 10)])"

declare dec_nat.simps [simp del]

text \<open>\<^verbatim>\<open>%d\<close> and \<^verbatim>\<open>%lld\<close>.\<close>

definition dec_int :: "int \<Rightarrow> string" where
  "dec_int i = (if i < 0 then CHR ''-'' # dec_nat (nat (- i)) else dec_nat (nat i))"

definition hex_char :: "nat \<Rightarrow> char" where
  "hex_char d = ''0123456789abcdef'' ! d"

text \<open>\<^verbatim>\<open>%02hhx\<close> of a byte.\<close>

definition hex2 :: "u8 \<Rightarrow> string" where
  "hex2 b = [hex_char (unat b div 16), hex_char (unat b mod 16)]"

definition newline :: char where
  "newline = CHR 0x0A"

definition tab :: char where
  "tab = CHR 0x09"

section \<open>Frame validation\<close>

text \<open>Lines 187 to 206 of \<^verbatim>\<open>device_loop\<close>. The buffer \<^verbatim>\<open>co2mon_data_t\<close> is a
  fixed array of the absent \<^verbatim>\<open>co2mon.h\<close>; it is a list here, read at the indices
  0 to 4. The operands of \<^verbatim>\<open>r0 + r1 + r2\<close> are promoted to \<^verbatim>\<open>int\<close> and the sum is
  converted to \<^verbatim>\<open>unsigned char\<close>; \<^verbatim>\<open>(result[1] << 8) + result[2]\<close> is computed in
  \<^verbatim>\<open>int\<close> and converted to \<^verbatim>\<open>uint16_t\<close>.\<close>

datatype malformed = Unexpected_data u8 | Checksum_error u8 u8

definition frame_checksum :: "u8 list \<Rightarrow> u8" where
  "frame_checksum result = word_of_int (uint (result ! 0) + uint (result ! 1) + uint (result ! 2))"

definition frame_word :: "u8 list \<Rightarrow> u16" where
  "frame_word result = word_of_int (push_bit 8 (uint (result ! 1)) + uint (result ! 2))"

definition check_frame :: "u8 list \<Rightarrow> malformed + (u8 \<times> u16)" where
  "check_frame result =
     (if result ! 4 \<noteq> 0x0d then Inl (Unexpected_data (result ! 4))
      else if frame_checksum result \<noteq> result ! 3
        then Inl (Checksum_error (frame_checksum result) (result ! 3))
      else Inr (result ! 0, frame_word result))"

definition malformed_message :: "malformed \<Rightarrow> string" where
  "malformed_message m =
     (case m of
        Unexpected_data b \<Rightarrow>
          ''Unexpected data from device (data[4] = '' @ hex2 b @ '', want 0x0d)'' @ [newline]
      | Checksum_error c r3 \<Rightarrow>
          ''checksum error ('' @ hex2 c @ '', await '' @ hex2 r3 @ '')'' @ [newline])"

section \<open>Doubles and \<^verbatim>\<open>%.4f\<close>\<close>

text \<open>A finite \<^verbatim>\<open>double\<close> is the rational number it denotes. Every operation
  of IEEE 754 binary64 returns the exact result rounded to the nearest value with a 53-bit
  significand, ties to even; below \<open>2 ^ -1022\<close> the spacing stays that of the
  smallest normal binade. Overflow to infinity is left out: the values of this program
  stay below \<open>2 ^ 16\<close>.\<close>

definition rne :: "rat \<Rightarrow> int" where
  "rne y =
     (let f = \<lfloor>y\<rfloor>; d = y - of_int f
      in if d < 1 / 2 then f else if 1 / 2 < d then f + 1 else if even f then f else f + 1)"

definition pow2 :: "int \<Rightarrow> rat" where
  "pow2 k = (if 0 \<le> k then 2 ^ nat k else 1 / 2 ^ nat (- k))"

text \<open>The binade of a positive rational: the \<open>e\<close> with \<open>2 ^ e \<le> x < 2 ^ (e + 1)\<close>.\<close>

definition ilog2 :: "rat \<Rightarrow> int" where
  "ilog2 x =
     (let (p, q) = quotient_of x; k = bitlen p - bitlen q
      in if pow2 k \<le> x then k else k - 1)"

definition round_double :: "rat \<Rightarrow> rat" where
  "round_double x =
     (if x = 0 then 0
      else let e = max (ilog2 \<bar>x\<bar>) (- 1022); u = pow2 (e - 52)
           in of_int (rne (x / u)) * u)"

text \<open>\<^verbatim>\<open>return (double)w * 0.0625 - 273.15;\<close>\<close>

definition decode_temperature :: "u16 \<Rightarrow> rat" where
  "decode_temperature w =
     round_double
       (round_double (round_double (of_nat (unat w)) * round_double (625 / 10000))
        - round_double (27315 / 100))"

text \<open>\<^verbatim>\<open>%.4f\<close>: the value rounded to four decimals (ties to even, as glibc does in
  the default rounding mode), a minus sign when the \<^verbatim>\<open>double\<close> is negative, the
  integer part, a point and four digits.\<close>

definition pad4 :: "nat \<Rightarrow> string" where
  "pad4 n = replicate (4 - length (dec_nat n)) (CHR ''0'') @ dec_nat n"

definition fixed4 :: "bool \<Rightarrow> nat \<Rightarrow> string" where
  "fixed4 neg n =
     (if neg then ''-'' else []) @ dec_nat (n div 10000) @ ''.'' @ pad4 (n mod 10000)"

definition printf_4f :: "rat \<Rightarrow> string" where
  "printf_4f y = fixed4 (y < 0) (nat \<bar>rne (y * 10000)\<bar>)"

section \<open>Sinks\<close>

text \<open>Every function returns the events it causes and its C return value.
  \<^verbatim>\<open>lock(fd, type)\<close> is the \<^verbatim>\<open>fcntl\<close> call of the event \<open>Sys_lock\<close>.\<close>

definition write_data :: "file_io \<Rightarrow> string \<Rightarrow> event list \<times> int" where
  "write_data io val =
     (let data = snprintf (VALUE_MAX + 1) (val @ [newline])
      in if lock_ret io \<noteq> 0 then ([Sys_lock F_WRLCK, Perror ''lock''], 0)
         else if ftruncate_ret io \<noteq> 0
           then ([Sys_lock F_WRLCK, Sys_ftruncate, Perror ''ftruncate''], 0)
         else if write_ret io \<noteq> int (length data)
           then ([Sys_lock F_WRLCK, Sys_ftruncate, Sys_write data, Perror ''write''], 0)
         else if unlock_ret io \<noteq> 0
           then ([Sys_lock F_WRLCK, Sys_ftruncate, Sys_write data, Sys_lock F_UNLCK,
                  Perror ''unlock''], 0)
         else ([Sys_lock F_WRLCK, Sys_ftruncate, Sys_write data, Sys_lock F_UNLCK], 1))"

definition write_value :: "config \<Rightarrow> file_io \<Rightarrow> string \<Rightarrow> string \<Rightarrow> event list \<times> int" where
  "write_value cfg io name val =
     (case datadir cfg of
        None \<Rightarrow> ([Call_write_value name val], 1)
      | Some dir \<Rightarrow>
          (let filename = snprintf PATH_MAX (dir @ ''/'' @ name)
           in if open_ret io = - 1
              then ([Call_write_value name val, Sys_open filename, Perror filename], 0)
              else (Call_write_value name val # Sys_open filename # fst (write_data io val)
                      @ [Sys_close],
                    snd (write_data io val))))"

text \<open>\<^verbatim>\<open>timestamp = (long long)time(0); timestamp *= 1000000000;\<close> The product
  is taken in 64 bits: it is the mathematical product while that fits, and wraps around
  beyond, as the compiled program does (signed overflow is undefined in C).\<close>

definition influx_timestamp :: "env \<Rightarrow> 64 word" where
  "influx_timestamp e = word_of_int (time_now e) * 1000000000"

text \<open>The two InfluxDB writers call \<^verbatim>\<open>post_http\<close>, drop its result and reach the
  closing brace without a \<^verbatim>\<open>return\<close>. The field of the point holds the string that
  \<^verbatim>\<open>atof\<close> or \<^verbatim>\<open>atoi\<close> converts.\<close>

definition write_temperature_influx :: "env \<Rightarrow> string \<Rightarrow> event list \<times> int" where
  "write_temperature_influx e val =
     ([Call_write_temperature_influx val,
       Post_http ''temp'' (INFLUX_F_FLT ''value'' val 4) (influx_timestamp e)],
      influx_fn_ret e)"

definition write_co2_influx :: "env \<Rightarrow> string \<Rightarrow> event list \<times> int" where
  "write_co2_influx e val =
     ([Call_write_co2_influx val,
       Post_http ''co2'' (INFLUX_F_INT ''value'' val) (influx_timestamp e)],
      influx_fn_ret e)"

definition write_heartbeat :: "config \<Rightarrow> env \<Rightarrow> event list" where
  "write_heartbeat cfg e =
     Call_write_heartbeat
       # fst (write_value cfg (heartbeat_io e) ''heartbeat''
                (snprintf VALUE_MAX (dec_int (time_now e))))"

section \<open>The session loop\<close>

text \<open>\<^verbatim>\<open>case CODE_TAMB\<close>, lines 210 to 245; \<open>tamb_buf\<close> is the \<^verbatim>\<open>snprintf\<close> of
  line 211. The \<^verbatim>\<open>fflush\<close> after a \<^verbatim>\<open>printf\<close> is not an event of its own.\<close>

definition tamb_buf :: "u16 \<Rightarrow> string" where
  "tamb_buf w = snprintf VALUE_MAX (printf_4f (decode_temperature w))"

definition reading_tamb :: "config \<Rightarrow> cache \<Rightarrow> env \<Rightarrow> u8 \<Rightarrow> u16 \<Rightarrow> event list \<times> cache" where
  "reading_tamb cfg c e r0 w =
     (let buf = tamb_buf w;
          echo = (if \<not> daemonize cfg then [Stdout (''Tamb'' @ [tab] @ buf @ [newline])] else []);
          sink =
            (if c r0 \<noteq> w
             then if influx_db cfg \<noteq> None
               then (fst (write_temperature_influx e buf),
                     if snd (write_temperature_influx e buf) \<noteq> 0 then c(r0 := w) else c)
               else (fst (write_value cfg (value_io e) ''Tamb'' buf),
                     if snd (write_value cfg (value_io e) ''Tamb'' buf) \<noteq> 0
                     then c(r0 := w) else c)
             else ([], c));
          heartbeat = (if influx_db cfg = None then write_heartbeat cfg e else [])
      in (echo @ fst sink @ heartbeat, snd sink))"

text \<open>\<^verbatim>\<open>case CODE_CNTR\<close>, lines 246 to 286; \<open>cntr_buf\<close> is the \<^verbatim>\<open>snprintf\<close> of
  line 251.\<close>

definition cntr_buf :: "u16 \<Rightarrow> string" where
  "cntr_buf w = snprintf VALUE_MAX (dec_int (uint w))"

definition reading_cntr :: "config \<Rightarrow> cache \<Rightarrow> env \<Rightarrow> u8 \<Rightarrow> u16 \<Rightarrow> event list \<times> cache" where
  "reading_cntr cfg c e r0 w =
     (if 3000 < unat w then ([], c)
      else
        let buf = cntr_buf w;
            echo = (if \<not> daemonize cfg then [Stdout (''CntR'' @ [tab] @ buf @ [newline])] else []);
            sink =
              (if c r0 \<noteq> w
               then if influx_db cfg \<noteq> None
                 then (fst (write_co2_influx e buf),
                       if snd (write_co2_influx e buf) \<noteq> 0 then c(r0 := w) else c)
                 else (fst (write_value cfg (value_io e) ''CntR'' buf),
                       if snd (write_value cfg (value_io e) ''CntR'' buf) \<noteq> 0
                       then c(r0 := w) else c)
               else ([], c));
            heartbeat = (if influx_db cfg = None then write_heartbeat cfg e else [])
        in (echo @ fst sink @ heartbeat, snd sink))"

text \<open>\<^verbatim>\<open>default\<close>, lines 287 to 293.\<close>

definition reading_default :: "config \<Rightarrow> cache \<Rightarrow> u8 \<Rightarrow> u16 \<Rightarrow> event list \<times> cache" where
  "reading_default cfg c r0 w =
     (if print_unknown cfg \<and> \<not> daemonize cfg
      then [Stdout (''0x'' @ hex2 r0 @ [tab] @ dec_int (uint w) @ [newline])] else [],
      c(r0 := w))"

text \<open>\<^verbatim>\<open>switch (r0)\<close>\<close>

definition process_reading :: "config \<Rightarrow> cache \<Rightarrow> env \<Rightarrow> u8 \<Rightarrow> u16 \<Rightarrow> event list \<times> cache" where
  "process_reading cfg c e r0 w =
     (if r0 = CODE_TAMB then reading_tamb cfg c e r0 w
      else if r0 = CODE_CNTR then reading_cntr cfg c e r0 w
      else reading_default cfg c r0 w)"

text \<open>\<^verbatim>\<open>while (1)\<close> of \<^verbatim>\<open>device_loop\<close>, one list element for each call of
  \<^verbatim>\<open>co2mon_read_data\<close>. The result is the trace, the cache and whether the loop has
  left through \<^verbatim>\<open>break\<close>; when the inputs end first the loop is still waiting for
  the device.\<close>

fun reading_loop :: "config \<Rightarrow> cache \<Rightarrow> env list \<Rightarrow> event list \<times> cache \<times> bool" where
  "reading_loop cfg c [] = ([], c, False)"
| "reading_loop cfg c (e # es) =
     (if read_ret e \<le> 0
      then ([Dev_read_data, Stderr (''Error while reading data from device'' @ [newline])], c, True)
      else case check_frame (read_buf e) of
        Inl m \<Rightarrow>
          (case reading_loop cfg c es of
             (t, c', left) \<Rightarrow> (Dev_read_data # Stderr (malformed_message m) # t, c', left))
      | Inr (r0, w) \<Rightarrow>
          (case reading_loop cfg (snd (process_reading cfg c e r0 w)) es of
             (t, c', left) \<Rightarrow>
               (Dev_read_data # fst (process_reading cfg c e r0 w) @ t, c', left)))"

text \<open>\<^verbatim>\<open>device_loop\<close>: \<open>magic_ok\<close> is the result of \<^verbatim>\<open>co2mon_send_magic_table\<close>.\<close>

definition device_loop :: "config \<Rightarrow> cache \<Rightarrow> bool \<Rightarrow> env list \<Rightarrow> event list \<times> cache \<times> bool" where
  "device_loop cfg c magic_ok es =
     (if \<not> magic_ok
      then ([Dev_send_magic_table,
             Stderr (''Unable to send magic table to CO2 device'' @ [newline])], c, True)
      else case reading_loop cfg c es of
             (t, c', left) \<Rightarrow> (Dev_send_magic_table # t, c', left))"

section \<open>The reconnection loop\<close>

text \<open>One element for each call of \<^verbatim>\<open>open_device\<close>: NULL, or a device together
  with what it answers during its session.\<close>

datatype open_outcome = Open_failed | Opened bool "env list"

definition open_device :: "config \<Rightarrow> event" where
  "open_device cfg = Dev_open (devicefile cfg)"

definition unable_to_open :: event where
  "unable_to_open = Stderr (''Unable to open CO2 device'' @ [newline])"

text \<open>\<^verbatim>\<open>main_loop\<close>: the arguments are \<^verbatim>\<open>error_shown\<close> and the cache; the result
  holds their last values. A session that does not leave its loop keeps the program in
  \<^verbatim>\<open>device_loop\<close>.\<close>

fun main_loop :: "config \<Rightarrow> bool \<Rightarrow> cache \<Rightarrow> open_outcome list \<Rightarrow> event list \<times> cache \<times> bool" where
  "main_loop cfg error_shown c [] = ([], c, error_shown)"
| "main_loop cfg error_shown c (Open_failed # os) =
     (case main_loop cfg True c os of
        (t, r) \<Rightarrow>
          (open_device cfg # (if \<not> error_shown then [unable_to_open] else [])
             @ Sys_sleep 1 # t, r))"
| "main_loop cfg error_shown c (Opened magic_ok es # os) =
     (case device_loop cfg c magic_ok es of
        (t1, c1, left) \<Rightarrow>
          if left
          then (case main_loop cfg False c1 os of
                  (t, r) \<Rightarrow> (open_device cfg # t1 @ Dev_close # t, r))
          else (open_device cfg # t1, c1, False))"

section \<open>Vocabulary of the properties\<close>

text \<open>A reading is dispatched when one of the sink writers is called for it: an InfluxDB
  writer, or \<^verbatim>\<open>write_value\<close> for one of the two metric files.\<close>

fun is_dispatch :: "event \<Rightarrow> bool" where
  "is_dispatch (Call_write_temperature_influx v) = True"
| "is_dispatch (Call_write_co2_influx v) = True"
| "is_dispatch (Call_write_value name v) = (name = ''Tamb'' \<or> name = ''CntR'')"
| "is_dispatch ev = False"

text \<open>The sink writer that \<^verbatim>\<open>device_loop\<close> calls for a changed reading of code
  \<open>r0\<close>, with its events and its return value.\<close>

definition sink_write :: "config \<Rightarrow> env \<Rightarrow> u8 \<Rightarrow> u16 \<Rightarrow> event list \<times> int" where
  "sink_write cfg e r0 w =
     (if r0 = CODE_TAMB
      then if influx_db cfg \<noteq> None then write_temperature_influx e (tamb_buf w)
           else write_value cfg (value_io e) ''Tamb'' (tamb_buf w)
      else if influx_db cfg \<noteq> None then write_co2_influx e (cntr_buf w)
           else write_value cfg (value_io e) ''CntR'' (cntr_buf w))"

text \<open>A system call on a file; and an event that reaches a sink: a system call on a
  file or an HTTP post.\<close>

fun is_file_op :: "event \<Rightarrow> bool" where
  "is_file_op (Sys_open f) = True"
| "is_file_op (Sys_lock l) = True"
| "is_file_op Sys_ftruncate = True"
| "is_file_op (Sys_write d) = True"
| "is_file_op Sys_close = True"
| "is_file_op ev = False"

fun is_sink_io :: "event \<Rightarrow> bool" where
  "is_sink_io (Post_http m f ts) = True"
| "is_sink_io ev = is_file_op ev"

text \<open>A session ends when the magic table cannot be sent or one of its reads returns a
  value of at most 0. The starts of the failure streaks of a sequence of open attempts are
  the failed attempts that are the first attempt or follow a successful one.\<close>

fun session_ends :: "open_outcome \<Rightarrow> bool" where
  "session_ends Open_failed = True"
| "session_ends (Opened magic_ok es) = (\<not> magic_ok \<or> (\<exists>e\<in>set es. read_ret e \<le> 0))"

definition streak_starts :: "open_outcome list \<Rightarrow> nat" where
  "streak_starts os =
     length (filter (\<lambda>i. os ! i = Open_failed \<and> (i = 0 \<or> os ! (i - 1) \<noteq> Open_failed))
               [0..<length os])"

section \<open>Example inputs\<close>

text \<open>Configurations: the file sink (\<^verbatim>\<open>-D /data\<close>), the InfluxDB sink
  (\<^verbatim>\<open>-d -B co2\<close>) and the console alone (no option).\<close>

definition cfg_file :: config where
  "cfg_file = \<lparr>daemonize = False, print_unknown = False, devicefile = None,
                datadir = Some ''/data'', influx_db = None\<rparr>"

definition cfg_influx :: config where
  "cfg_influx = \<lparr>daemonize = True, print_unknown = False, devicefile = None,
                  datadir = None, influx_db = Some ''co2''\<rparr>"

definition cfg_console :: config where
  "cfg_console = \<lparr>daemonize = False, print_unknown = False, devicefile = None,
                   datadir = None, influx_db = None\<rparr>"

text \<open>System call results: every call succeeds on a value of \<open>n\<close> bytes with its
  newline; \<^verbatim>\<open>open\<close> fails.\<close>

definition io_ok :: "nat \<Rightarrow> file_io" where
  "io_ok n = \<lparr>open_ret = 3, lock_ret = 0, ftruncate_ret = 0, write_ret = int n + 1,
              unlock_ret = 0\<rparr>"

definition io_open_fails :: file_io where
  "io_open_fails = \<lparr>open_ret = - 1, lock_ret = 0, ftruncate_ret = 0, write_ret = 0,
                     unlock_ret = 0\<rparr>"

text \<open>Frames: ambient temperature with raw value 3086, CO2 with raw value 412, a bad
  checksum, a bad sentinel, ambient temperature with raw value 0.\<close>

definition frame_tamb :: "u8 list" where
  "frame_tamb = [0x42, 0x0C, 0x0E, 0x5C, 0x0d, 0, 0, 0]"

definition frame_cntr :: "u8 list" where
  "frame_cntr = [0x50, 0x01, 0x9C, 0xED, 0x0d, 0, 0, 0]"

definition frame_bad_checksum :: "u8 list" where
  "frame_bad_checksum = [0x42, 0x0C, 0x0E, 0x5D, 0x0d, 0, 0, 0]"

definition frame_bad_sentinel :: "u8 list" where
  "frame_bad_sentinel = [0x42, 0x0C, 0x0E, 0x5C, 0x00, 0, 0, 0]"


text \<open>One answer of the environment: a read of \<open>r\<close> bytes into \<open>buf\<close> at time
  1700000000, with the given system call results for the metric file.\<close>

definition env_of :: "int \<Rightarrow> u8 list \<Rightarrow> file_io \<Rightarrow> env" where
  "env_of r buf io =
     \<lparr>read_ret = r, read_buf = buf, time_now = 1700000000, post_http_ret = 0,
      influx_fn_ret = 0, value_io = io, heartbeat_io = io_ok 10\<rparr>"

section \<open>Frame validation: properties\<close>

lemma unat_frame_checksum:
  "unat (frame_checksum result)
     = (unat (result ! 0) + unat (result ! 1) + unat (result ! 2)) mod 256"
  unfolding frame_checksum_def
  by (simp add: unat_word_ariths mod_simps)

lemma uint_frame_word: "uint (frame_word result) = uint (result ! 1) * 256 + uint (result ! 2)"
proof -
  have b: "uint (result ! 1) < 256" "uint (result ! 2) < 256"
    "0 \<le> uint (result ! 1)" "0 \<le> uint (result ! 2)"
    using unsigned_less [of "result ! 1"] unsigned_less [of "result ! 2"] by simp_all
  have "uint (frame_word result) = (uint (result ! 1) * 256 + uint (result ! 2)) mod 65536"
    unfolding frame_word_def by (simp only: uint_word_of_int push_bit_eq_mult) simp
  also have "\<dots> = uint (result ! 1) * 256 + uint (result ! 2)"
    using b by simp
  finally show ?thesis .
qed

lemma checksum_matches_iff:
  "frame_checksum result = result ! 3
     \<longleftrightarrow> unat (result ! 3) = (unat (result ! 0) + unat (result ! 1) + unat (result ! 2)) mod 256"
  using unat_frame_checksum [of result] by (metis word_unat_eq_iff)

text \<open>
  Claim C3. For a frame of at least five bytes: when byte 4 is not \<open>0x0d\<close> the frame is
  rejected as malformed whatever its checksum; otherwise it is accepted, as the reading
  of byte 0 and the big-endian word of bytes 1 and 2, exactly when byte 3 equals
  \<open>(byte0 + byte1 + byte2) mod 256\<close>, and rejected as malformed for every other byte 3.
  The word of an accepted frame is \<open>256 * byte1 + byte2\<close>.
\<close>

theorem check_frame_sentinel_checksum:
  assumes "5 \<le> length result"
  shows "(result ! 4 \<noteq> 0x0d \<longrightarrow> check_frame result = Inl (Unexpected_data (result ! 4)))
    \<and> (result ! 4 = 0x0d \<longrightarrow>
         (unat (result ! 3) = (unat (result ! 0) + unat (result ! 1) + unat (result ! 2)) mod 256
            \<longrightarrow> check_frame result = Inr (result ! 0, frame_word result))
       \<and> (unat (result ! 3) \<noteq> (unat (result ! 0) + unat (result ! 1) + unat (result ! 2)) mod 256
            \<longrightarrow> check_frame result = Inl (Checksum_error (frame_checksum result) (result ! 3))))
    \<and> uint (frame_word result) = uint (result ! 1) * 256 + uint (result ! 2)"
  using checksum_matches_iff [of result] uint_frame_word [of result]
  by (simp add: check_frame_def)

theorem check_frame_sentinel_checksum_witness:
  "check_frame frame_tamb = Inr (CODE_TAMB, 3086)
   \<and> check_frame frame_bad_checksum = Inl (Checksum_error 0x5C 0x5D)
   \<and> check_frame frame_bad_sentinel = Inl (Unexpected_data 0)"
proof -
  have word: "frame_word frame_tamb = 3086"
    by (simp add: frame_word_def frame_tamb_def)
  have sum: "frame_checksum frame_bad_checksum = 0x5C"
    by (simp add: frame_checksum_def frame_bad_checksum_def)
  show ?thesis
    using word sum
      check_frame_sentinel_checksum [of frame_tamb]
      check_frame_sentinel_checksum [of frame_bad_checksum]
      check_frame_sentinel_checksum [of frame_bad_sentinel]
    by (simp add: frame_tamb_def frame_bad_checksum_def frame_bad_sentinel_def CODE_TAMB_def)
qed

section \<open>Dispatch and cache: properties\<close>

lemma codes_distinct: "CODE_TAMB \<noteq> CODE_CNTR"
  by (simp add: CODE_TAMB_def CODE_CNTR_def)

lemma heartbeat_no_dispatch: "\<not> (\<exists>ev\<in>set (write_heartbeat cfg e). is_dispatch ev)"
  by (auto simp: write_heartbeat_def write_value_def write_data_def Let_def split: option.splits)

lemma sink_write_dispatches: "\<exists>ev\<in>set (fst (sink_write cfg e code w)). is_dispatch ev"
  by (auto simp: sink_write_def write_value_def write_temperature_influx_def
      write_co2_influx_def Let_def split: option.splits)

lemma process_reading_changed:
  assumes "code = CODE_TAMB \<or> (code = CODE_CNTR \<and> unat w \<le> 3000)" "c code \<noteq> w"
  shows "\<exists>echo. fst (process_reading cfg c e code w)
           = echo @ fst (sink_write cfg e code w)
               @ (if influx_db cfg = None then write_heartbeat cfg e else [])
         \<and> (\<forall>ev\<in>set echo. \<exists>s. ev = Stdout s)"
    and "snd (process_reading cfg c e code w)
           = (if snd (sink_write cfg e code w) \<noteq> 0 then c(code := w) else c)"
  using assms codes_distinct
  by (auto simp: process_reading_def reading_tamb_def reading_cntr_def sink_write_def Let_def)

lemma process_reading_unchanged:
  assumes "code = CODE_TAMB \<or> (code = CODE_CNTR \<and> unat w \<le> 3000)" "c code = w"
  shows "\<exists>echo. fst (process_reading cfg c e code w)
           = echo @ (if influx_db cfg = None then write_heartbeat cfg e else [])
         \<and> (\<forall>ev\<in>set echo. \<exists>s. ev = Stdout s)"
    and "snd (process_reading cfg c e code w) = c"
  using assms codes_distinct
  by (auto simp: process_reading_def reading_tamb_def reading_cntr_def sink_write_def Let_def)

lemma dispatch_iff_changed:
  assumes "code = CODE_TAMB \<or> (code = CODE_CNTR \<and> unat w \<le> 3000)"
  shows "(\<exists>ev\<in>set (fst (process_reading cfg c e code w)). is_dispatch ev) \<longleftrightarrow> c code \<noteq> w"
proof (cases "c code = w")
  case True
  from process_reading_unchanged(1) [where c=c and code=code and w=w and cfg=cfg and e=e]
    assms True
  obtain echo where
    "fst (process_reading cfg c e code w)
       = echo @ (if influx_db cfg = None then write_heartbeat cfg e else [])"
    "\<forall>ev\<in>set echo. \<exists>s. ev = Stdout s"
    by blast
  then show ?thesis
    using True heartbeat_no_dispatch [of cfg e] by auto
next
  case False
  from process_reading_changed(1) [where c=c and code=code and w=w and cfg=cfg and e=e]
    assms False
  obtain echo where
    "fst (process_reading cfg c e code w)
       = echo @ fst (sink_write cfg e code w)
           @ (if influx_db cfg = None then write_heartbeat cfg e else [])"
    by blast
  then show ?thesis
    using False sink_write_dispatches [of cfg e code w] by auto
qed

text \<open>What the switch does with the value a sink writer returns: a writer is called
  exactly when the raw value differs from the cache entry; the entry becomes the raw value
  exactly when the writer returns non-zero; after a writer that returned zero the next
  reading with the same raw value calls a writer again.\<close>

lemma commit_iff_writer_returns_nonzero:
  assumes "code = CODE_TAMB \<or> (code = CODE_CNTR \<and> unat w \<le> 3000)"
  shows "((\<exists>ev\<in>set (fst (process_reading cfg c e code w)). is_dispatch ev) \<longleftrightarrow> c code \<noteq> w)
    \<and> (c code = w \<longrightarrow> snd (process_reading cfg c e code w) = c)
    \<and> (c code \<noteq> w \<longrightarrow>
         snd (process_reading cfg c e code w)
           = (if snd (sink_write cfg e code w) \<noteq> 0 then c(code := w) else c))
    \<and> (c code \<noteq> w \<and> snd (sink_write cfg e code w) = 0 \<longrightarrow>
         snd (process_reading cfg c e code w) = c
         \<and> (\<exists>ev\<in>set (fst (process_reading cfg (snd (process_reading cfg c e code w)) e' code w)).
               is_dispatch ev))"
  using assms dispatch_iff_changed [of code w cfg c e] dispatch_iff_changed [of code w cfg c e']
    process_reading_unchanged(2) [where c=c and code=code and w=w and cfg=cfg and e=e]
    process_reading_changed(2) [where c=c and code=code and w=w and cfg=cfg and e=e]
  by simp

text \<open>With the file sink the returned value is the outcome of the write: a temperature
  reading whose file cannot be opened is dispatched, leaves the cache as it was, and is
  dispatched again when it arrives once more.\<close>

lemma file_sink_failed_write_retried:
  "(\<exists>ev\<in>set (fst (process_reading cfg_file co2mon_data_init
                      (env_of 8 frame_tamb io_open_fails) CODE_TAMB 3086)). is_dispatch ev)
   \<and> snd (process_reading cfg_file co2mon_data_init
            (env_of 8 frame_tamb io_open_fails) CODE_TAMB 3086) = co2mon_data_init
   \<and> (\<exists>ev\<in>set (fst (process_reading cfg_file
                      (snd (process_reading cfg_file co2mon_data_init
                             (env_of 8 frame_tamb io_open_fails) CODE_TAMB 3086))
                      (env_of 8 frame_tamb (io_ok 8)) CODE_TAMB 3086)). is_dispatch ev)"
proof -
  have changed: "co2mon_data_init CODE_TAMB \<noteq> 3086"
    by (simp add: co2mon_data_init_def)
  have failed: "snd (sink_write cfg_file (env_of 8 frame_tamb io_open_fails) CODE_TAMB 3086) = 0"
    by (simp add: sink_write_def write_value_def cfg_file_def env_of_def io_open_fails_def Let_def)
  show ?thesis
    using changed failed commit_iff_writer_returns_nonzero
      [of CODE_TAMB 3086 cfg_file co2mon_data_init "env_of 8 frame_tamb io_open_fails"
          "env_of 8 frame_tamb (io_ok 8)"]
    by auto
qed

text \<open>
  Claim C1, against the code. The claim ties the cache to the outcome of the sink write:
  committed exactly when the write succeeded, and a failed write retried. With the
  InfluxDB sink the code does not do that. For a temperature reading of raw value 3086 on
  the initial cache, and for every result \<open>a\<close> of \<^verbatim>\<open>post_http\<close>, a failed post
  among them: when the indeterminate value that \<^verbatim>\<open>device_loop\<close> tests is 1 the cache
  is committed and the same reading arriving again is not dispatched, so a failed post is
  never retried; when that value is 0 the cache stays uncommitted and the same reading is
  dispatched again, also after a successful post.
\<close>

theorem influx_commit_not_tied_to_post:
  "snd (process_reading cfg_influx co2mon_data_init
         ((env_of 8 frame_tamb (io_ok 8))\<lparr>post_http_ret := a, influx_fn_ret := 1\<rparr>)
         CODE_TAMB 3086) = co2mon_data_init(CODE_TAMB := 3086)
   \<and> filter is_dispatch
        (fst (process_reading cfg_influx
               (snd (process_reading cfg_influx co2mon_data_init
                      ((env_of 8 frame_tamb (io_ok 8))\<lparr>post_http_ret := a, influx_fn_ret := 1\<rparr>)
                      CODE_TAMB 3086))
               (env_of 8 frame_tamb (io_ok 8)) CODE_TAMB 3086)) = []
   \<and> snd (process_reading cfg_influx co2mon_data_init
         ((env_of 8 frame_tamb (io_ok 8))\<lparr>post_http_ret := a, influx_fn_ret := 0\<rparr>)
         CODE_TAMB 3086) = co2mon_data_init
   \<and> filter is_dispatch
        (fst (process_reading cfg_influx
               (snd (process_reading cfg_influx co2mon_data_init
                      ((env_of 8 frame_tamb (io_ok 8))\<lparr>post_http_ret := a, influx_fn_ret := 0\<rparr>)
                      CODE_TAMB 3086))
               (env_of 8 frame_tamb (io_ok 8)) CODE_TAMB 3086))
       = [Call_write_temperature_influx (tamb_buf 3086)]"
  by (simp add: process_reading_def reading_tamb_def Let_def cfg_influx_def
      co2mon_data_init_def write_temperature_influx_def)

text \<open>
  Claim C4. A reading with code CNTR and a raw value above 3000 is discarded: it causes no
  event and leaves the cache as it is, whatever the cache holds, and the loop goes on to
  the next read. A reading with code CNTR, a raw value of at most 3000 and a cache entry
  that differs is dispatched: the InfluxDB writer, or \<^verbatim>\<open>write_value\<close> for the file
  \<^verbatim>\<open>CntR\<close>, is called with the decimal raw value.
\<close>

theorem cntr_range_filter:
  "(3000 < unat w \<longrightarrow> process_reading cfg c e CODE_CNTR w = ([], c))
   \<and> (0 < read_ret e \<and> check_frame (read_buf e) = Inr (CODE_CNTR, w) \<and> 3000 < unat w \<longrightarrow>
        reading_loop cfg c (e # es)
          = (Dev_read_data # fst (reading_loop cfg c es), snd (reading_loop cfg c es)))
   \<and> (unat w \<le> 3000 \<and> c CODE_CNTR \<noteq> w \<longrightarrow>
        (if influx_db cfg \<noteq> None then Call_write_co2_influx (cntr_buf w)
         else Call_write_value ''CntR'' (cntr_buf w))
          \<in> set (fst (process_reading cfg c e CODE_CNTR w))
        \<and> (\<exists>ev\<in>set (fst (process_reading cfg c e CODE_CNTR w)). is_dispatch ev))"
proof -
  have discard: "process_reading cfg c e CODE_CNTR w = ([], c)" if "3000 < unat w"
    using that codes_distinct by (simp add: process_reading_def reading_cntr_def)
  have loop: "reading_loop cfg c (e # es)
          = (Dev_read_data # fst (reading_loop cfg c es), snd (reading_loop cfg c es))"
    if "0 < read_ret e" "check_frame (read_buf e) = Inr (CODE_CNTR, w)" "3000 < unat w"
    using that discard by (simp add: case_prod_beta)
  have call: "(if influx_db cfg \<noteq> None then Call_write_co2_influx (cntr_buf w)
         else Call_write_value ''CntR'' (cntr_buf w))
          \<in> set (fst (process_reading cfg c e CODE_CNTR w))"
    if "unat w \<le> 3000" "c CODE_CNTR \<noteq> w"
    using that codes_distinct
    by (auto simp: process_reading_def reading_cntr_def Let_def write_co2_influx_def
        write_value_def split: option.splits)
  have disp: "\<exists>ev\<in>set (fst (process_reading cfg c e CODE_CNTR w)). is_dispatch ev"
    if "unat w \<le> 3000" "c CODE_CNTR \<noteq> w"
    using that dispatch_iff_changed [of CODE_CNTR w cfg c e] by simp
  show ?thesis
    using discard loop call disp by blast
qed

theorem cntr_range_filter_witness:
  "process_reading cfg_file co2mon_data_init (env_of 8 frame_cntr (io_ok 4)) CODE_CNTR 3001
     = ([], co2mon_data_init)
   \<and> Call_write_value ''CntR'' ''3000''
       \<in> set (fst (process_reading cfg_file co2mon_data_init (env_of 8 frame_cntr (io_ok 4))
                      CODE_CNTR 3000))"
proof -
  have buf: "cntr_buf 3000 = ''3000''"
    by (simp add: cntr_buf_def snprintf_def VALUE_MAX_def dec_int_def dec_nat.simps digit_char_def)
  have changed: "co2mon_data_init CODE_CNTR \<noteq> 3000"
    by (simp add: co2mon_data_init_def)
  have cfg: "influx_db cfg_file = None"
    by (simp add: cfg_file_def)
  show ?thesis
    using buf changed cfg
      cntr_range_filter [of 3001 cfg_file co2mon_data_init "env_of 8 frame_cntr (io_ok 4)"]
      cntr_range_filter [of 3000 cfg_file co2mon_data_init "env_of 8 frame_cntr (io_ok 4)"]
    by simp
qed

text \<open>
  Claim C10. Without a data directory \<^verbatim>\<open>write_value\<close> makes no system call and
  returns 1, for every name and value. So with neither a data directory nor an InfluxDB
  database, a changed reading with code TAMB, or with code CNTR and a raw value of at most
  3000, stores its raw value in the cache although no file operation and no HTTP post
  happens.
\<close>

theorem write_value_without_datadir:
  "(datadir cfg = None \<longrightarrow> write_value cfg io name val = ([Call_write_value name val], 1))
   \<and> (datadir cfg = None \<and> influx_db cfg = None
        \<and> (code = CODE_TAMB \<or> (code = CODE_CNTR \<and> unat w \<le> 3000)) \<and> c code \<noteq> w \<longrightarrow>
        snd (process_reading cfg c e code w) = c(code := w)
        \<and> \<not> (\<exists>ev\<in>set (fst (process_reading cfg c e code w)). is_sink_io ev))"
proof -
  have wv: "write_value cfg io name val = ([Call_write_value name val], 1)"
    if "datadir cfg = None" for io name val
    using that by (simp add: write_value_def)
  have "snd (process_reading cfg c e code w) = c(code := w)
        \<and> \<not> (\<exists>ev\<in>set (fst (process_reading cfg c e code w)). is_sink_io ev)"
    if "datadir cfg = None" "influx_db cfg = None"
      "code = CODE_TAMB \<or> (code = CODE_CNTR \<and> unat w \<le> 3000)" "c code \<noteq> w"
    using that codes_distinct
    by (auto simp: process_reading_def reading_tamb_def reading_cntr_def Let_def
        write_heartbeat_def wv)
  then show ?thesis
    using wv by blast
qed

theorem write_value_without_datadir_witness:
  "write_value cfg_console (io_ok 8) ''Tamb'' ''-80.2750'' = ([Call_write_value ''Tamb'' ''-80.2750''], 1)
   \<and> snd (process_reading cfg_console co2mon_data_init (env_of 8 frame_tamb (io_ok 8)) CODE_TAMB 3086)
       = co2mon_data_init(CODE_TAMB := 3086)"
proof -
  have cfg: "datadir cfg_console = None" "influx_db cfg_console = None"
    by (simp_all add: cfg_console_def)
  have changed: "co2mon_data_init CODE_TAMB \<noteq> 3086"
    by (simp add: co2mon_data_init_def)
  show ?thesis
    using cfg changed
      write_value_without_datadir [of cfg_console "io_ok 8" "''Tamb''" "''-80.2750''" CODE_TAMB 3086 co2mon_data_init
        "env_of 8 frame_tamb (io_ok 8)"]
    by simp
qed





section \<open>The session loop: properties\<close>

lemma loop_left_iff: "snd (snd (reading_loop cfg c es)) \<longleftrightarrow> (\<exists>e\<in>set es. read_ret e \<le> 0)"
  by (induction es arbitrary: c) (auto simp: case_prod_beta split: sum.splits)

text \<open>
  Claim C8. After the magic table has been sent, the loop has left exactly when one of the
  reads returned a value of at most 0. A frame that fails the sentinel or the checksum
  test only logs its message: the loop goes on with the next read and the same cache.
\<close>

theorem session_loop_exit:
  "(snd (snd (device_loop cfg c True es)) \<longleftrightarrow> (\<exists>e\<in>set es. read_ret e \<le> 0))
   \<and> (0 < read_ret e
        \<and> (read_buf e ! 4 \<noteq> 0x0d \<or> frame_checksum (read_buf e) \<noteq> read_buf e ! 3) \<longrightarrow>
        (\<exists>m. check_frame (read_buf e) = Inl m
           \<and> device_loop cfg c True (e # es)
               = (Dev_send_magic_table # Dev_read_data # Stderr (malformed_message m)
                    # fst (reading_loop cfg c es),
                  snd (reading_loop cfg c es))))"
proof -
  have "\<exists>m. check_frame (read_buf e) = Inl m"
    if "read_buf e ! 4 \<noteq> 0x0d \<or> frame_checksum (read_buf e) \<noteq> read_buf e ! 3"
    using that by (auto simp: check_frame_def)
  then show ?thesis
    using loop_left_iff [of cfg c es]
    by (auto simp: device_loop_def case_prod_beta)
qed

theorem session_loop_exit_witness:
  "snd (snd (device_loop cfg_file co2mon_data_init True
         [env_of 8 frame_bad_checksum (io_ok 8), env_of 0 frame_bad_checksum (io_ok 8)]))
   \<and> \<not> snd (snd (device_loop cfg_file co2mon_data_init True
         [env_of 8 frame_bad_checksum (io_ok 8), env_of 8 frame_bad_sentinel (io_ok 8)]))
   \<and> device_loop cfg_file co2mon_data_init True [env_of 8 frame_bad_sentinel (io_ok 8)]
       = ([Dev_send_magic_table, Dev_read_data,
           Stderr (''Unexpected data from device (data[4] = 00, want 0x0d)'' @ [newline])],
          co2mon_data_init, False)"
proof -
  have frame: "check_frame frame_bad_sentinel = Inl (Unexpected_data 0)"
    by (simp add: check_frame_def frame_bad_sentinel_def)
  have sentinel: "frame_bad_sentinel ! 4 \<noteq> 0x0d"
    by (simp add: frame_bad_sentinel_def)
  have msg: "malformed_message (Unexpected_data 0)
      = ''Unexpected data from device (data[4] = 00, want 0x0d)'' @ [newline]"
    by (simp add: malformed_message_def hex2_def hex_char_def)
  show ?thesis
    using frame sentinel msg
      session_loop_exit [of cfg_file co2mon_data_init
         "[env_of 8 frame_bad_checksum (io_ok 8), env_of 0 frame_bad_checksum (io_ok 8)]"]
      session_loop_exit [of cfg_file co2mon_data_init
         "[env_of 8 frame_bad_checksum (io_ok 8), env_of 8 frame_bad_sentinel (io_ok 8)]"]
      session_loop_exit [of cfg_file co2mon_data_init "[]" "env_of 8 frame_bad_sentinel (io_ok 8)"]
    by (simp add: env_of_def)
qed

section \<open>Heartbeat: properties\<close>

lemma heartbeat_call_iff:
  assumes "code = CODE_TAMB \<or> (code = CODE_CNTR \<and> unat w \<le> 3000)"
  shows "Call_write_heartbeat \<in> set (fst (process_reading cfg c e code w)) \<longleftrightarrow> influx_db cfg = None"
  using assms codes_distinct
  by (auto simp: process_reading_def reading_tamb_def reading_cntr_def Let_def
      write_heartbeat_def write_value_def write_data_def write_temperature_influx_def
      write_co2_influx_def split: option.splits if_splits)

lemma heartbeat_last:
  assumes "code = CODE_TAMB \<or> (code = CODE_CNTR \<and> unat w \<le> 3000)" "influx_db cfg = None"
  shows "\<exists>pre. fst (process_reading cfg c e code w) = pre @ write_heartbeat cfg e"
  using assms codes_distinct
  by (auto simp: process_reading_def reading_tamb_def reading_cntr_def Let_def)

lemma influx_no_file_op:
  assumes "influx_db cfg \<noteq> None"
  shows "\<not> (\<exists>ev\<in>set (fst (process_reading cfg c e code w)). is_file_op ev)"
proof -
  from assms obtain db where db: "influx_db cfg = Some db"
    by auto
  have "\<not> (\<exists>ev\<in>set (fst (reading_tamb cfg c e code w)). is_file_op ev)"
    by (simp add: db reading_tamb_def Let_def write_temperature_influx_def)
  moreover have "\<not> (\<exists>ev\<in>set (fst (reading_cntr cfg c e code w)). is_file_op ev)"
    by (simp add: db reading_cntr_def Let_def write_co2_influx_def)
  moreover have "\<not> (\<exists>ev\<in>set (fst (reading_default cfg c code w)). is_file_op ev)"
    by (simp add: reading_default_def)
  ultimately show ?thesis
    by (simp add: process_reading_def)
qed

lemma heartbeat_without_datadir:
  assumes "datadir cfg = None"
  shows "\<not> (\<exists>ev\<in>set (write_heartbeat cfg e). is_file_op ev)"
  using assms by (simp add: write_heartbeat_def write_value_def)

lemma heartbeat_opens:
  assumes "datadir cfg = Some dir"
  shows "Sys_open (snprintf PATH_MAX (dir @ ''/heartbeat'')) \<in> set (write_heartbeat cfg e)"
  using assms by (simp add: write_heartbeat_def write_value_def Let_def)

lemma snprintf_value_newline:
  "snprintf (Suc VALUE_MAX) (snprintf VALUE_MAX s @ [newline]) = snprintf VALUE_MAX s @ [newline]"
  by (simp add: snprintf_def VALUE_MAX_def)

lemma heartbeat_writes:
  assumes "datadir cfg = Some dir" "open_ret (heartbeat_io e) \<noteq> - 1"
    "lock_ret (heartbeat_io e) = 0" "ftruncate_ret (heartbeat_io e) = 0"
    "write_ret (heartbeat_io e) = int (length (snprintf VALUE_MAX (dec_int (time_now e)))) + 1"
    "unlock_ret (heartbeat_io e) = 0"
  shows "write_heartbeat cfg e =
    [Call_write_heartbeat,
     Call_write_value ''heartbeat'' (snprintf VALUE_MAX (dec_int (time_now e))),
     Sys_open (snprintf PATH_MAX (dir @ ''/heartbeat'')),
     Sys_lock F_WRLCK, Sys_ftruncate,
     Sys_write (snprintf VALUE_MAX (dec_int (time_now e)) @ [newline]),
     Sys_lock F_UNLCK, Sys_close]"
  using assms
  by (simp add: write_heartbeat_def write_value_def write_data_def Let_def snprintf_value_newline)

text \<open>
  Claim C5, as amended. After a reading with code TAMB, or with code CNTR and a raw value
  of at most 3000, whether or not the cache suppressed it, \<^verbatim>\<open>write_heartbeat\<close> is
  called exactly when no InfluxDB database is configured, as the last action for the
  reading. With a database configured the reading causes no heartbeat call and no file
  operation. The call writes a file only when a data directory is configured: without
  one it makes no system call; with one it opens the file \<^verbatim>\<open>heartbeat\<close> of that
  directory and, when the system calls succeed, writes the decimal Unix time and a
  newline.
\<close>

theorem heartbeat_iff_file_sink:
  assumes "code = CODE_TAMB \<or> (code = CODE_CNTR \<and> unat w \<le> 3000)"
  shows "(Call_write_heartbeat \<in> set (fst (process_reading cfg c e code w)) \<longleftrightarrow> influx_db cfg = None)
    \<and> (influx_db cfg = None \<longrightarrow>
         (\<exists>pre. fst (process_reading cfg c e code w) = pre @ write_heartbeat cfg e))
    \<and> (influx_db cfg \<noteq> None \<longrightarrow>
         \<not> (\<exists>ev\<in>set (fst (process_reading cfg c e code w)). is_file_op ev))
    \<and> (datadir cfg = None \<longrightarrow> \<not> (\<exists>ev\<in>set (write_heartbeat cfg e). is_file_op ev))
    \<and> (datadir cfg = Some dir \<longrightarrow>
         Sys_open (snprintf PATH_MAX (dir @ ''/heartbeat'')) \<in> set (write_heartbeat cfg e))
    \<and> (datadir cfg = Some dir \<and> open_ret (heartbeat_io e) \<noteq> - 1
         \<and> lock_ret (heartbeat_io e) = 0 \<and> ftruncate_ret (heartbeat_io e) = 0
         \<and> write_ret (heartbeat_io e)
             = int (length (snprintf VALUE_MAX (dec_int (time_now e)))) + 1
         \<and> unlock_ret (heartbeat_io e) = 0 \<longrightarrow>
         write_heartbeat cfg e =
           [Call_write_heartbeat,
            Call_write_value ''heartbeat'' (snprintf VALUE_MAX (dec_int (time_now e))),
            Sys_open (snprintf PATH_MAX (dir @ ''/heartbeat'')),
            Sys_lock F_WRLCK, Sys_ftruncate,
            Sys_write (snprintf VALUE_MAX (dec_int (time_now e)) @ [newline]),
            Sys_lock F_UNLCK, Sys_close])"
  using heartbeat_call_iff [OF assms, of cfg c e] heartbeat_last [OF assms, of cfg c e]
    influx_no_file_op [of cfg c e code w] heartbeat_without_datadir [of cfg e]
    heartbeat_opens [of cfg dir e] heartbeat_writes [of cfg dir e]
  by blast

theorem heartbeat_iff_file_sink_witness:
  "write_heartbeat cfg_file (env_of 8 frame_tamb (io_ok 8)) =
     [Call_write_heartbeat, Call_write_value ''heartbeat'' ''1700000000'',
      Sys_open ''/data/heartbeat'', Sys_lock F_WRLCK, Sys_ftruncate,
      Sys_write (''1700000000'' @ [newline]), Sys_lock F_UNLCK, Sys_close]
   \<and> Call_write_heartbeat
       \<in> set (fst (process_reading cfg_file co2mon_data_init (env_of 8 frame_tamb (io_ok 8))
                      CODE_TAMB 3086))
   \<and> Call_write_heartbeat
       \<notin> set (fst (process_reading cfg_influx co2mon_data_init (env_of 8 frame_tamb (io_ok 8))
                      CODE_TAMB 3086))"
proof -
  have ts: "snprintf VALUE_MAX (dec_int 1700000000) = ''1700000000''"
    by (simp add: snprintf_def VALUE_MAX_def dec_int_def dec_nat.simps digit_char_def)
  have path: "snprintf PATH_MAX (''/data'' @ ''/heartbeat'') = ''/data/heartbeat''"
    by (simp add: snprintf_def PATH_MAX_def)
  show ?thesis
    using ts path
      heartbeat_iff_file_sink [where code=CODE_TAMB and w=3086 and cfg=cfg_file and c=co2mon_data_init
        and e="env_of 8 frame_tamb (io_ok 8)" and dir="''/data''"]
      heartbeat_iff_file_sink [where code=CODE_TAMB and w=3086 and cfg=cfg_influx and c=co2mon_data_init
        and e="env_of 8 frame_tamb (io_ok 8)" and dir="''/data''"]
    by (simp add: cfg_file_def cfg_influx_def env_of_def io_ok_def)
qed

text \<open>
  Claim C5 as stated fails: with neither a data directory nor a database the InfluxDB
  sink is not active, and a temperature reading causes no operation on any file.
\<close>

theorem heartbeat_not_written_without_datadir:
  "influx_db cfg_console = None
   \<and> filter is_file_op
        (fst (process_reading cfg_console co2mon_data_init (env_of 8 frame_tamb (io_ok 8))
                CODE_TAMB 3086)) = []"
  by (simp add: process_reading_def reading_tamb_def Let_def cfg_console_def
      write_heartbeat_def write_value_def)

section \<open>InfluxDB writers: properties\<close>

text \<open>
  Claim C2, against the code. The value that \<^verbatim>\<open>device_loop\<close> receives from
  \<^verbatim>\<open>write_temperature_influx\<close> and \<^verbatim>\<open>write_co2_influx\<close> is the same whatever
  \<^verbatim>\<open>post_http\<close> returned, since both functions drop that result and have no
  \<^verbatim>\<open>return\<close>. With the database configured and a temperature reading of raw value
  3086 on the initial cache, the same answer of \<^verbatim>\<open>post_http\<close> leaves the cache
  uncommitted or commits it, as the indeterminate value happens to be 0 or 1.
\<close>

theorem influx_writers_ignore_post_http:
  "snd (write_temperature_influx (e\<lparr>post_http_ret := a\<rparr>) val) = influx_fn_ret e
   \<and> snd (write_co2_influx (e\<lparr>post_http_ret := a\<rparr>) val) = influx_fn_ret e
   \<and> snd (process_reading cfg_influx co2mon_data_init
            ((env_of 8 frame_tamb (io_ok 8))\<lparr>post_http_ret := a, influx_fn_ret := 0\<rparr>)
            CODE_TAMB 3086) = co2mon_data_init
   \<and> snd (process_reading cfg_influx co2mon_data_init
            ((env_of 8 frame_tamb (io_ok 8))\<lparr>post_http_ret := a, influx_fn_ret := 1\<rparr>)
            CODE_TAMB 3086) = co2mon_data_init(CODE_TAMB := 3086)"
  by (simp add: write_temperature_influx_def write_co2_influx_def process_reading_def
      reading_tamb_def Let_def cfg_influx_def co2mon_data_init_def)

section \<open>The reconnection loop: properties\<close>

lemma filter_upt_Suc:
  "length (filter P [0..<Suc n])
     = (if P 0 then 1 else 0) + length (filter (\<lambda>i. P (Suc i)) [0..<n])"
proof -
  have "[0..<Suc n] = 0 # map Suc [0..<n]"
    by (simp add: upt_conv_Cons map_Suc_upt del: upt_Suc)
  then show ?thesis
    by (simp add: filter_map comp_def del: upt_Suc)
qed

lemma write_value_quiet:
  "unable_to_open \<notin> set (fst (write_value cfg io name val))
   \<and> Sys_sleep n \<notin> set (fst (write_value cfg io name val))"
  by (simp add: write_value_def write_data_def Let_def unable_to_open_def split: option.splits)

lemma write_heartbeat_quiet:
  "unable_to_open \<notin> set (write_heartbeat cfg e) \<and> Sys_sleep n \<notin> set (write_heartbeat cfg e)"
  using write_value_quiet [of cfg "heartbeat_io e" "''heartbeat''" _ n]
  by (simp add: write_heartbeat_def unable_to_open_def)

lemma influx_quiet:
  "unable_to_open \<notin> set (fst (write_temperature_influx e val))
   \<and> Sys_sleep n \<notin> set (fst (write_temperature_influx e val))
   \<and> unable_to_open \<notin> set (fst (write_co2_influx e val))
   \<and> Sys_sleep n \<notin> set (fst (write_co2_influx e val))"
  by (simp add: write_temperature_influx_def write_co2_influx_def unable_to_open_def)

lemma process_reading_quiet:
  "unable_to_open \<notin> set (fst (process_reading cfg c e code w))
   \<and> Sys_sleep n \<notin> set (fst (process_reading cfg c e code w))"
proof -
  have "unable_to_open \<notin> set (fst (reading_tamb cfg c e code w))
   \<and> Sys_sleep n \<notin> set (fst (reading_tamb cfg c e code w))"
    using write_value_quiet [of cfg "value_io e" "''Tamb''" "tamb_buf w" n]
      write_heartbeat_quiet [of cfg e n] influx_quiet [of e "tamb_buf w" n]
    by (simp add: reading_tamb_def Let_def) (simp add: unable_to_open_def)
  moreover have "unable_to_open \<notin> set (fst (reading_cntr cfg c e code w))
   \<and> Sys_sleep n \<notin> set (fst (reading_cntr cfg c e code w))"
    using write_value_quiet [of cfg "value_io e" "''CntR''" "cntr_buf w" n]
      write_heartbeat_quiet [of cfg e n] influx_quiet [of e "cntr_buf w" n]
    by (simp add: reading_cntr_def Let_def) (simp add: unable_to_open_def)
  moreover have "unable_to_open \<notin> set (fst (reading_default cfg c code w))
   \<and> Sys_sleep n \<notin> set (fst (reading_default cfg c code w))"
    by (simp add: reading_default_def unable_to_open_def)
  ultimately show ?thesis
    by (auto simp: process_reading_def)
qed

lemma malformed_message_differs:
  "Stderr (malformed_message m) \<noteq> unable_to_open"
  by (cases m) (simp_all add: malformed_message_def unable_to_open_def)

lemma reading_loop_quiet:
  "unable_to_open \<notin> set (fst (reading_loop cfg c es))
   \<and> Sys_sleep n \<notin> set (fst (reading_loop cfg c es))"
proof (induction es arbitrary: c)
  case Nil
  then show ?case by simp
next
  case (Cons e es)
  show ?case
  proof (cases "read_ret e \<le> 0")
    case True
    then show ?thesis by (simp add: unable_to_open_def)
  next
    case False
    show ?thesis
    proof (cases "check_frame (read_buf e)")
      case (Inl m)
      then show ?thesis
        using False Cons.IH [of c] malformed_message_differs [of m]
        by (simp add: case_prod_beta) (simp add: unable_to_open_def)
    next
      case (Inr r)
      then show ?thesis
        using False Cons.IH [of "snd (process_reading cfg c e (fst r) (snd r))"]
          process_reading_quiet [of cfg c e "fst r" "snd r" n]
        by (simp add: case_prod_beta) (simp add: unable_to_open_def)
    qed
  qed
qed

lemma device_loop_quiet:
  "count_list (fst (device_loop cfg c magic_ok es)) unable_to_open = 0
   \<and> count_list (fst (device_loop cfg c magic_ok es)) (Sys_sleep n) = 0"
  using reading_loop_quiet [of cfg c es n]
  by (simp add: device_loop_def case_prod_beta unable_to_open_def count_list_0_iff)

lemma device_loop_left:
  "snd (snd (device_loop cfg c magic_ok es)) \<longleftrightarrow> session_ends (Opened magic_ok es)"
  using loop_left_iff [of cfg c es] by (simp add: device_loop_def case_prod_beta)

lemma main_loop_failed:
  "main_loop cfg shown c (Open_failed # os)
     = (open_device cfg # (if \<not> shown then [unable_to_open] else [])
          @ Sys_sleep 1 # fst (main_loop cfg True c os),
        snd (main_loop cfg True c os))"
  by (simp add: case_prod_beta)

lemma main_loop_opened:
  assumes "session_ends (Opened magic_ok es)"
  shows "main_loop cfg shown c (Opened magic_ok es # os)
     = (open_device cfg # fst (device_loop cfg c magic_ok es)
          @ Dev_close # fst (main_loop cfg False (fst (snd (device_loop cfg c magic_ok es))) os),
        snd (main_loop cfg False (fst (snd (device_loop cfg c magic_ok es))) os))"
  using assms device_loop_left [of cfg c magic_ok es]
  by (simp add: case_prod_beta)

lemma open_device_differs:
  "open_device cfg \<noteq> unable_to_open \<and> open_device cfg \<noteq> Sys_sleep n
   \<and> Dev_close \<noteq> unable_to_open \<and> Sys_sleep n \<noteq> unable_to_open"
  by (simp add: open_device_def unable_to_open_def)

lemma main_loop_counts:
  assumes "\<forall>a\<in>set os. session_ends a"
  shows "count_list (fst (main_loop cfg shown c os)) unable_to_open
           = length (filter (\<lambda>i. os ! i = Open_failed
                 \<and> (if i = 0 then \<not> shown else os ! (i - 1) \<noteq> Open_failed)) [0..<length os])
         \<and> count_list (fst (main_loop cfg shown c os)) (Sys_sleep 1) = count_list os Open_failed
         \<and> snd (snd (main_loop cfg shown c os))
             = (if os = [] then shown else last os = Open_failed)"
  using assms
proof (induction os arbitrary: shown c)
  case Nil
  then show ?case by simp
next
  case (Cons a os)
  then have ends: "\<forall>a\<in>set os. session_ends a" and a: "session_ends a"
    by simp_all
  show ?case
  proof (cases a)
    case Open_failed
    have shift: "(\<lambda>i. (a # os) ! Suc i = Open_failed
                \<and> (if Suc i = 0 then \<not> shown else (a # os) ! (Suc i - 1) \<noteq> Open_failed))
        = (\<lambda>i. os ! i = Open_failed \<and> (if i = 0 then \<not> True else os ! (i - 1) \<noteq> Open_failed))"
      using Open_failed by (auto simp: fun_eq_iff nth_Cons split: nat.splits)
    show ?thesis
      using Cons.IH [OF ends, of True c] open_device_differs [of cfg 1]
      unfolding Open_failed main_loop_failed length_Cons filter_upt_Suc shift [unfolded Open_failed]
      by (auto simp: unable_to_open_def)
  next
    case (Opened magic_ok es)
    have shift: "(\<lambda>i. (a # os) ! Suc i = Open_failed
                \<and> (if Suc i = 0 then \<not> shown else (a # os) ! (Suc i - 1) \<noteq> Open_failed))
        = (\<lambda>i. os ! i = Open_failed \<and> (if i = 0 then \<not> False else os ! (i - 1) \<noteq> Open_failed))"
      using Opened by (auto simp: fun_eq_iff nth_Cons split: nat.splits)
    from a Opened have se: "session_ends (Opened magic_ok es)"
      by simp
    show ?thesis
      using Cons.IH [OF ends, of False "fst (snd (device_loop cfg c magic_ok es))"]
        open_device_differs [of cfg 1] device_loop_quiet [of cfg c magic_ok es 1]
      unfolding Opened main_loop_opened [OF se] length_Cons filter_upt_Suc shift [unfolded Opened]
      by (auto simp: unable_to_open_def)
  qed
qed

text \<open>
  Claim C7. For a sequence of open attempts whose sessions all end, starting with the flag
  clear: the message \<^verbatim>\<open>Unable to open CO2 device\<close> is written once for each streak of
  consecutive failures, that is once for each failed attempt that is the first attempt or
  follows a successful one; every failed attempt sleeps for one second; and the flag is set at the end
  exactly when the last attempt failed. A failed attempt writes the message only when the
  flag is clear, sleeps, and goes on to the next attempt with the flag set; a successful
  one runs the session, closes the device and goes on with the flag clear.
\<close>

theorem unable_to_open_once_per_streak:
  assumes "\<forall>a\<in>set os. session_ends a"
  shows "count_list (fst (main_loop cfg False c os)) unable_to_open = streak_starts os
    \<and> count_list (fst (main_loop cfg False c os)) (Sys_sleep 1) = count_list os Open_failed
    \<and> snd (snd (main_loop cfg False c os)) = (os \<noteq> [] \<and> last os = Open_failed)
    \<and> fst (main_loop cfg shown c (Open_failed # os))
        = open_device cfg # (if \<not> shown then [unable_to_open] else [])
            @ Sys_sleep 1 # fst (main_loop cfg True c os)
    \<and> (session_ends (Opened magic_ok es) \<longrightarrow>
         fst (main_loop cfg shown c (Opened magic_ok es # os))
           = open_device cfg # fst (device_loop cfg c magic_ok es)
               @ Dev_close
               # fst (main_loop cfg False (fst (snd (device_loop cfg c magic_ok es))) os))"
proof -
  have pred: "(\<lambda>i. os ! i = Open_failed \<and> (if i = 0 then \<not> False else os ! (i - 1) \<noteq> Open_failed))
      = (\<lambda>i. os ! i = Open_failed \<and> (i = 0 \<or> os ! (i - 1) \<noteq> Open_failed))"
    by (auto simp: fun_eq_iff)
  have "count_list (fst (main_loop cfg False c os)) unable_to_open = streak_starts os"
    using main_loop_counts [OF assms, of cfg False c]
    unfolding streak_starts_def pred by simp
  moreover have "count_list (fst (main_loop cfg False c os)) (Sys_sleep 1)
      = count_list os Open_failed"
    using main_loop_counts [OF assms, of cfg False c] by simp
  moreover have "snd (snd (main_loop cfg False c os)) = (os \<noteq> [] \<and> last os = Open_failed)"
    using main_loop_counts [OF assms, of cfg False c] by simp
  ultimately show ?thesis
    using main_loop_failed [of cfg shown c os] main_loop_opened [of magic_ok es cfg shown c os]
    by simp
qed

theorem unable_to_open_once_per_streak_witness:
  "count_list (fst (main_loop cfg_file False co2mon_data_init
       [Open_failed, Open_failed, Open_failed, Opened False [], Open_failed])) unable_to_open = 2
   \<and> count_list (fst (main_loop cfg_file False co2mon_data_init
       [Open_failed, Open_failed, Open_failed, Opened False [], Open_failed])) (Sys_sleep 1) = 4
   \<and> snd (snd (main_loop cfg_file False co2mon_data_init
       [Open_failed, Open_failed, Open_failed, Opened False [], Open_failed]))"
proof -
  have starts: "streak_starts [Open_failed, Open_failed, Open_failed, Opened False [], Open_failed] = 2"
    by (simp add: streak_starts_def)
  show ?thesis
    using starts unable_to_open_once_per_streak
      [where os="[Open_failed, Open_failed, Open_failed, Opened False [], Open_failed]"
         and cfg=cfg_file and c=co2mon_data_init]
    by simp
qed

section \<open>Doubles and \<^verbatim>\<open>%.4f\<close>: properties\<close>

lemma pow2_powi: "pow2 k = 2 powi k"
  by (simp add: pow2_def power_int_def field_simps)

lemma pow2_pos: "0 < pow2 k"
  by (simp add: pow2_powi)

lemma pow2_mono: "a \<le> b \<Longrightarrow> pow2 a \<le> pow2 b"
  by (simp add: pow2_powi power_int_increasing)

lemma pow2_less_exp: "pow2 a \<le> x \<Longrightarrow> x < pow2 b \<Longrightarrow> a < b"
proof (rule ccontr)
  assume "pow2 a \<le> x" "x < pow2 b" "\<not> a < b"
  then have "pow2 b \<le> pow2 a" using pow2_mono [of b a] by simp
  with \<open>pow2 a \<le> x\<close> \<open>x < pow2 b\<close> show False by simp
qed

lemma rne_error: "\<bar>of_int (rne y) - y\<bar> \<le> 1 / 2"
proof -
  have "of_int \<lfloor>y\<rfloor> \<le> y" "y < of_int \<lfloor>y\<rfloor> + 1"
    by linarith+
  then show ?thesis
    by (auto simp: rne_def Let_def abs_le_iff)
qed

lemma rne_unique:
  assumes "\<bar>y - of_int n\<bar> < 1 / 2"
  shows "rne y = n"
proof -
  have "\<bar>of_int (rne y) - (of_int n :: rat)\<bar> < 1"
    using rne_error [of y] assms by linarith
  then have "\<bar>(of_int (rne y - n) :: rat)\<bar> < 1"
    by simp
  then have "\<bar>rne y - n\<bar> < 1"
    by (metis (no_types) of_int_abs of_int_less_iff of_int_1)
  then show ?thesis by linarith
qed

lemma rne_of_int: "rne (of_int n) = n"
  using rne_unique [of "of_int n" n] by simp

lemma ilog2_lower:
  assumes "0 < x"
  shows "pow2 (ilog2 x) \<le> x"
proof -
  obtain p q where pq: "quotient_of x = (p, q)"
    by (cases "quotient_of x")
  then have q: "0 < q" and x: "x = of_int p / of_int q"
    using quotient_of_denom_pos [OF pq] quotient_of_div [OF pq] by simp_all
  from assms x q have p: "0 < p"
    by (simp add: zero_less_divide_iff)
  let ?k = "bitlen p - bitlen q"
  show ?thesis
  proof (cases "pow2 ?k \<le> x")
    case True
    then show ?thesis by (simp add: ilog2_def pq)
  next
    case False
    have bp: "1 \<le> bitlen p" and bq: "1 \<le> bitlen q"
      using p q by (simp_all add: bitlen_alt_def)
    have ip: "(2::int) ^ nat (bitlen p - 1) \<le> p" and iq: "q < 2 ^ nat (bitlen q)"
      using bitlen_bounds [OF p] bitlen_bounds [OF q] by simp_all
    have "(2::rat) powi (bitlen p - 1) = of_int (2 ^ nat (bitlen p - 1))"
      using bp by (simp add: power_int_def)
    also have "\<dots> \<le> of_int p"
      using ip by (simp only: of_int_le_iff)
    finally have lp: "(2::rat) powi (bitlen p - 1) \<le> of_int p" .
    have "(of_int q :: rat) < of_int (2 ^ nat (bitlen q))"
      using iq by (simp only: of_int_less_iff)
    also have "\<dots> = 2 powi (bitlen q)"
      using bq by (simp add: power_int_def)
    finally have uq: "of_int q < (2::rat) powi (bitlen q)" .
    have "pow2 (?k - 1) = 2 powi (bitlen p - 1) / 2 powi (bitlen q)"
      by (simp add: pow2_powi power_int_diff)
    also have "\<dots> \<le> of_int p / of_int q"
      using lp uq q p by (intro frac_le) simp_all
    finally have "pow2 (?k - 1) \<le> x"
      by (simp only: x)
    then show ?thesis
      using False by (simp add: ilog2_def pq)
  qed
qed

lemma round_double_error:
  assumes "\<bar>x\<bar> < pow2 E" "- 1021 \<le> E"
  shows "\<bar>round_double x - x\<bar> \<le> pow2 (E - 54)"
proof (cases "x = 0")
  case True
  then show ?thesis
    using pow2_pos [of "E - 54"] by (simp add: round_double_def)
next
  case False
  define e where "e = max (ilog2 \<bar>x\<bar>) (- 1022)"
  define u where "u = pow2 (e - 52)"
  have u: "0 < u"
    by (simp add: u_def pow2_pos)
  have "ilog2 \<bar>x\<bar> < E"
    using ilog2_lower [of "\<bar>x\<bar>"] False assms(1) pow2_less_exp by simp
  then have e: "e \<le> E - 1"
    using assms(2) by (simp add: e_def)
  have rd: "round_double x = of_int (rne (x / u)) * u"
    using False by (simp add: round_double_def Let_def e_def u_def)
  have "round_double x - x = (of_int (rne (x / u)) - x / u) * u"
    using u by (simp add: rd left_diff_distrib)
  then have "\<bar>round_double x - x\<bar> = \<bar>of_int (rne (x / u)) - x / u\<bar> * u"
    using u by (simp only: abs_mult abs_of_pos)
  also have "\<dots> \<le> 1 / 2 * u"
    using rne_error [of "x / u"] u by (intro mult_right_mono) simp_all
  also have "\<dots> = pow2 (e - 53)"
    by (simp add: u_def pow2_powi power_int_diff)
  also have "\<dots> \<le> pow2 (E - 54)"
    using e by (intro pow2_mono) simp
  finally show ?thesis .
qed

lemma round_double_exact:
  assumes "x = of_int m * pow2 k" "\<bar>x\<bar> < pow2 E" "- 1021 \<le> E" "E - 1 \<le> k + 52"
  shows "round_double x = x"
proof (cases "x = 0")
  case True
  then show ?thesis by (simp add: round_double_def)
next
  case False
  define e where "e = max (ilog2 \<bar>x\<bar>) (- 1022)"
  define u where "u = pow2 (e - 52)"
  have u: "0 < u"
    by (simp add: u_def pow2_pos)
  have "ilog2 \<bar>x\<bar> < E"
    using ilog2_lower [of "\<bar>x\<bar>"] False assms(2) pow2_less_exp by simp
  then have e: "e \<le> E - 1"
    using assms(3) by (simp add: e_def)
  have rd: "round_double x = of_int (rne (x / u)) * u"
    using False by (simp add: round_double_def Let_def e_def u_def)
  have "0 \<le> k - e + 52"
    using e assms(4) by simp
  then have "(2::rat) powi (k - (e - 52)) = 2 ^ nat (k - e + 52)"
    by (simp add: power_int_def algebra_simps)
  then have "pow2 k / u = of_int (2 ^ nat (k - e + 52))"
    by (simp add: u_def pow2_powi power_int_diff)
  then have "x / u = of_int (m * 2 ^ nat (k - e + 52))"
    unfolding assms(1) times_divide_eq_right [symmetric] by simp
  then have "of_int (rne (x / u)) = x / u"
    by (simp only: rne_of_int)
  then show ?thesis
    using u by (simp add: rd)
qed

lemma ilog2_upper:
  assumes "0 < x"
  shows "x < pow2 (ilog2 x + 1)"
proof -
  obtain p q where pq: "quotient_of x = (p, q)"
    by (cases "quotient_of x")
  then have q: "0 < q" and x: "x = of_int p / of_int q"
    using quotient_of_denom_pos [OF pq] quotient_of_div [OF pq] by simp_all
  from assms x q have p: "0 < p"
    by (simp add: zero_less_divide_iff)
  let ?k = "bitlen p - bitlen q"
  show ?thesis
  proof (cases "pow2 ?k \<le> x")
    case True
    have bp: "1 \<le> bitlen p" and bq: "1 \<le> bitlen q"
      using p q by (simp_all add: bitlen_alt_def)
    have ip: "p < 2 ^ nat (bitlen p)" and iq: "(2::int) ^ nat (bitlen q - 1) \<le> q"
      using bitlen_bounds [OF p] bitlen_bounds [OF q] by simp_all
    have "(of_int p :: rat) < of_int (2 ^ nat (bitlen p))"
      using ip by (simp only: of_int_less_iff)
    also have "\<dots> = 2 powi (bitlen p)"
      using bp by (simp add: power_int_def)
    finally have up: "of_int p < (2::rat) powi (bitlen p)" .
    have "(2::rat) powi (bitlen q - 1) = of_int (2 ^ nat (bitlen q - 1))"
      using bq by (simp add: power_int_def)
    also have "\<dots> \<le> of_int q"
      using iq by (simp only: of_int_le_iff)
    finally have lq: "(2::rat) powi (bitlen q - 1) \<le> of_int q" .
    have "of_int p / of_int q < (2::rat) powi (bitlen p) / 2 powi (bitlen q - 1)"
      using up lq p by (intro frac_less) simp_all
    also have "\<dots> = pow2 (?k + 1)"
      by (simp add: pow2_powi power_int_diff power_int_add)
    finally have "x < pow2 (?k + 1)"
      by (simp only: x)
    then show ?thesis
      using True by (simp add: ilog2_def pq)
  next
    case False
    then show ?thesis
      by (simp add: ilog2_def pq)
  qed
qed

lemma ilog2_unique:
  assumes "0 < x" "pow2 e \<le> x" "x < pow2 (e + 1)"
  shows "ilog2 x = e"
proof -
  have "ilog2 x < e + 1"
    using ilog2_lower [OF assms(1)] assms(3) by (rule pow2_less_exp)
  moreover have "e < ilog2 x + 1"
    using assms(2) ilog2_upper [OF assms(1)] by (rule pow2_less_exp)
  ultimately show ?thesis
    by simp
qed

text \<open>The literal \<^verbatim>\<open>273.15\<close> is the binary64 value \<^verbatim>\<open>0x4071126666666666\<close>, with
  the significand 4805305618032230 and the exponent -44.\<close>

lemma double_273_15_value: "round_double (27315 / 100) = 4805305618032230 / 2 ^ 44"
proof -
  have e: "ilog2 \<bar>27315 / 100\<bar> = 8"
    by (rule ilog2_unique) (simp_all add: pow2_def)
  have "rne (27315 / 100 / pow2 (8 - 52)) = 4805305618032230"
    by (rule rne_unique) (simp add: pow2_def)
  then show ?thesis
    using e by (simp add: round_double_def Let_def) (simp add: pow2_def)
qed

lemma unat_u16_bound: "unat (w :: u16) < 65536"
  using unsigned_less [of w, where 'a = nat] by simp

lemma double_of_nat:
  assumes "n < 65536"
  shows "round_double (of_nat n) = of_nat n"
proof (rule round_double_exact [where m = "int n" and k = 0 and E = 16])
  show "(of_nat n :: rat) = of_int (int n) * pow2 0"
    by (simp add: pow2_def)
  show "\<bar>of_nat n :: rat\<bar> < pow2 16"
    using assms by (simp add: pow2_def)
qed simp_all

lemma double_sixteenth: "round_double (625 / 10000) = 1 / 16"
  using round_double_exact [where x = "1 / 16" and m = 1 and k = "- 4" and E = "- 3"]
  by (simp add: pow2_def)

lemma double_scaled:
  assumes "n < 65536"
  shows "round_double (of_nat n * (1 / 16)) = of_nat n / 16"
proof -
  have "round_double (of_nat n / 16) = of_nat n / 16"
  proof (rule round_double_exact [where m = "int n" and k = "- 4" and E = 12])
    show "(of_nat n / 16 :: rat) = of_int (int n) * pow2 (- 4)"
      by (simp add: pow2_def)
    show "\<bar>of_nat n / 16 :: rat\<bar> < pow2 12"
      using assms by (simp add: pow2_def)
  qed simp_all
  then show ?thesis by simp
qed

lemma double_273_15: "\<bar>round_double (27315 / 100) - 27315 / 100\<bar> \<le> 1 / 2 ^ 45"
  using round_double_error [where x = "27315 / 100" and E = 9]
  by (simp add: pow2_def)

lemma temperature_error:
  assumes "n < 65536"
  shows "\<bar>round_double
            (round_double (round_double (of_nat n) * round_double (625 / 10000))
             - round_double (27315 / 100))
          - (of_nat n / 16 - 27315 / 100)\<bar> \<le> 1 / 2 ^ 45 + 1 / 2 ^ 42"
proof -
  define d where "d = round_double (27315 / 100)"
  define x where "x = of_nat n / 16 - d"
  have d: "\<bar>d - 27315 / 100\<bar> \<le> 1 / 2 ^ 45"
    unfolding d_def by (rule double_273_15)
  have n: "(of_nat n :: rat) < 65536" "(0::rat) \<le> of_nat n"
    using assms by simp_all
  have small: "(1::rat) / 2 ^ 45 \<le> 1 / 10"
    by simp
  have "273 \<le> d" "d \<le> 274"
    using d small by linarith+
  then have "\<bar>x\<bar> < 4096"
    using n unfolding x_def by linarith
  then have "\<bar>x\<bar> < pow2 12"
    by (simp add: pow2_def)
  then have "\<bar>round_double x - x\<bar> \<le> pow2 (12 - 54)"
    by (rule round_double_error) simp
  then have r: "\<bar>round_double x - x\<bar> \<le> 1 / 2 ^ 42"
    by (simp add: pow2_def)
  have "round_double
            (round_double (round_double (of_nat n) * round_double (625 / 10000))
             - round_double (27315 / 100)) = round_double x"
    by (simp only: double_of_nat [OF assms] double_sixteenth double_scaled [OF assms] x_def d_def)
  then show ?thesis
    using r d unfolding x_def by linarith
qed

lemma decode_temperature_error:
  "\<bar>decode_temperature w - (of_nat (unat w) / 16 - 27315 / 100)\<bar> \<le> 1 / 2 ^ 45 + 1 / 2 ^ 42"
  unfolding decode_temperature_def by (rule temperature_error [OF unat_u16_bound])

lemma decode_temperature_scaled:
  "\<bar>decode_temperature w * 10000 - of_int (int (unat w) * 625 - 2731500)\<bar> < 1 / 2"
proof -
  define n where "n = unat w"
  define t where "t = decode_temperature w"
  have err: "\<bar>t - (of_nat n / 16 - 27315 / 100)\<bar> \<le> 1 / 2 ^ 45 + 1 / 2 ^ 42"
    unfolding t_def n_def by (rule decode_temperature_error)
  have "t * 10000 - of_int (int n * 625 - 2731500) = (t - (of_nat n / 16 - 27315 / 100)) * 10000"
    by (simp add: algebra_simps)
  then have "\<bar>t * 10000 - of_int (int n * 625 - 2731500)\<bar>
      = \<bar>t - (of_nat n / 16 - 27315 / 100)\<bar> * 10000"
    by (simp only: abs_mult)
  also have "\<dots> \<le> (1 / 2 ^ 45 + 1 / 2 ^ 42) * 10000"
    using err by (intro mult_right_mono) simp_all
  also have "\<dots> < 1 / 2"
    by simp
  finally show ?thesis
    unfolding t_def n_def .
qed

lemma temperature_nonzero: "int n * 625 - 2731500 \<noteq> 0"
proof
  assume "int n * 625 - 2731500 = 0"
  then have "int n * 625 = 2731500"
    by simp
  then have "(int n * 625) mod 625 = 2731500 mod 625"
    by (simp only:)
  then show False
    by simp
qed

lemma decode_temperature_sign:
  "decode_temperature w < 0 \<longleftrightarrow> int (unat w) * 625 < 2731500"
proof -
  define N where "N = int (unat w) * 625 - 2731500"
  have close: "\<bar>decode_temperature w * 10000 - of_int N\<bar> < 1 / 2"
    unfolding N_def by (rule decode_temperature_scaled)
  consider "N \<le> - 1" | "1 \<le> N"
    using temperature_nonzero [of "unat w"] unfolding N_def by linarith
  then show ?thesis
  proof cases
    case 1
    then have "(of_int N :: rat) \<le> - 1"
      by (metis of_int_le_iff of_int_minus of_int_1)
    with close have "decode_temperature w * 10000 < 0"
      by linarith
    then show ?thesis using 1 unfolding N_def by simp
  next
    case 2
    then have "(1 :: rat) \<le> of_int N"
      by (metis of_int_le_iff of_int_1)
    with close have "0 < decode_temperature w * 10000"
      by linarith
    then show ?thesis using 2 unfolding N_def by simp
  qed
qed

lemma printf_decode_temperature:
  "printf_4f (decode_temperature w)
     = fixed4 (int (unat w) * 625 < 2731500) (nat \<bar>int (unat w) * 625 - 2731500\<bar>)"
  using rne_unique [OF decode_temperature_scaled [of w]] decode_temperature_sign [of w]
  by (simp only: printf_4f_def)

lemma dec_nat_length: "n < 10 ^ Suc k \<Longrightarrow> length (dec_nat n) \<le> Suc k"
proof (induction k arbitrary: n)
  case 0
  then show ?case by (simp add: dec_nat.simps [of n])
next
  case (Suc k)
  show ?case
  proof (cases "n < 10")
    case True
    then show ?thesis by (simp add: dec_nat.simps [of n])
  next
    case False
    from Suc.prems have "n div 10 < 10 ^ Suc k"
      by (simp add: less_mult_imp_div_less)
    from Suc.IH [OF this] False show ?thesis
      by (simp add: dec_nat.simps [of n])
  qed
qed

lemma pad4_length: "n < 10000 \<Longrightarrow> length (pad4 n) = 4"
  using dec_nat_length [of n 3] by (simp add: pad4_def)

lemma fixed4_length:
  assumes "k < 100000000"
  shows "length (fixed4 neg k) \<le> 10"
proof -
  have "k div 10000 < 10 ^ Suc 3"
    using assms by simp
  then have "length (dec_nat (k div 10000)) \<le> 4"
    using dec_nat_length [of "k div 10000" 3] by simp
  moreover have "length (pad4 (k mod 10000)) = 4"
    by (rule pad4_length) simp
  ultimately show ?thesis
    by (simp add: fixed4_def)
qed

lemma temperature_magnitude: "nat \<bar>int (unat (w :: u16)) * 625 - 2731500\<bar> < 100000000"
  using unat_u16_bound [of w] by linarith

text \<open>
  Claim C9. For every raw value the string that \<^verbatim>\<open>snprintf\<close> with \<^verbatim>\<open>%.4f\<close>
  produces from \<^verbatim>\<open>decode_temperature\<close> is the decimal notation, with a sign, an integer
  part and exactly four decimals, of the exact number \<open>raw * 0.0625 - 273.15\<close>, which
  is \<open>(625 * raw - 2731500) / 10000\<close>; the \<^verbatim>\<open>double\<close> itself lies within
  \<open>2 ^ -41\<close> of that number. For the raw value 3086 the string is \<^verbatim>\<open>-80.2750\<close>.
\<close>

theorem temperature_string_four_decimals:
  "tamb_buf w = fixed4 (int (unat w) * 625 < 2731500) (nat \<bar>int (unat w) * 625 - 2731500\<bar>)
   \<and> (of_int (int (unat w) * 625 - 2731500) :: rat) / 10000
       = of_nat (unat w) * (625 / 10000) - 27315 / 100
   \<and> \<bar>decode_temperature w - (of_nat (unat w) * (625 / 10000) - 27315 / 100)\<bar> \<le> 1 / 2 ^ 41
   \<and> length (pad4 (nat \<bar>int (unat w) * 625 - 2731500\<bar> mod 10000)) = 4
   \<and> tamb_buf 3086 = ''-80.2750''"
proof -
  have buf: "tamb_buf v
      = fixed4 (int (unat v) * 625 < 2731500) (nat \<bar>int (unat v) * 625 - 2731500\<bar>)" for v
    using fixed4_length [OF temperature_magnitude [of v], of "int (unat v) * 625 < 2731500"]
    by (simp add: tamb_buf_def snprintf_def VALUE_MAX_def printf_decode_temperature)
  have exact: "(of_int (int (unat w) * 625 - 2731500) :: rat) / 10000
       = of_nat (unat w) * (625 / 10000) - 27315 / 100"
    by (simp add: field_simps)
  have near: "\<bar>decode_temperature w - (of_nat (unat w) * (625 / 10000) - 27315 / 100)\<bar> \<le> 1 / 2 ^ 41"
    using decode_temperature_error [of w] by simp
  have digits: "length (pad4 (nat \<bar>int (unat w) * 625 - 2731500\<bar> mod 10000)) = 4"
    by (rule pad4_length) simp
  have "tamb_buf 3086 = fixed4 True 802750"
    by (simp add: buf)
  also have "\<dots> = ''-80.2750''"
    by (simp add: fixed4_def pad4_def dec_nat.simps digit_char_def)
  finally show ?thesis
    using buf [of w] exact near digits by simp
qed

end
